theory Spec2Isabelle
  imports Main "HOL-Library.Word"
begin

section \<open>Strings of the host language\<close>

text \<open>
  A string of the plugin is a sequence of 16-bit code units: \<open>length\<close> is the
  string's \<open>.length\<close>, \<open>@\<close> is what a template literal does, and the newline
  character is the code unit 10.  \<open>js\<close> writes a literal of the source.
\<close>

type_synonym jschar = "16 word"
type_synonym jsstring = "jschar list"

abbreviation LF :: jschar where
  "LF \<equiv> 10"

abbreviation CR :: jschar where
  "CR \<equiv> 13"

definition js :: "string \<Rightarrow> jsstring" where
  "js s = map of_char s"

text \<open>\<open>text.split('\n')\<close>: the pieces between the newlines, at least one piece.\<close>

fun split_nl :: "jsstring \<Rightarrow> jsstring list" where
  "split_nl [] = [[]]"
| "split_nl (c # cs) =
     (if c = LF then [] # split_nl cs
      else (c # hd (split_nl cs)) # tl (split_nl cs))"

text \<open>\<open>pieces.join('\n')\<close>.\<close>

fun join_nl :: "jsstring list \<Rightarrow> jsstring" where
  "join_nl [] = []"
| "join_nl [l] = l"
| "join_nl (l # m # ls) = l @ [LF] @ join_nl (m # ls)"

text \<open>
  The lines of a text in the editor: the editor breaks a text it is given at a line
  feed, at a carriage return followed by a line feed, and at a carriage return alone.
  A line of the document holds neither character.
\<close>

fun split_lines :: "jsstring \<Rightarrow> jsstring list" where
  "split_lines [] = [[]]"
| "split_lines [c] = (if c = LF \<or> c = CR then [[], []] else [[c]])"
| "split_lines (c # d # ds) =
     (if c = CR \<and> d = LF then [] # split_lines ds
      else if c = LF \<or> c = CR then [] # split_lines (d # ds)
      else (c # hd (split_lines (d # ds))) # tl (split_lines (d # ds)))"

text \<open>A string with no line break in it: a single line for the editor.\<close>

definition no_break :: "jsstring \<Rightarrow> bool" where
  "no_break s \<longleftrightarrow> LF \<notin> set s \<and> CR \<notin> set s"

text \<open>
  The character class \<open>\s\<close> of a regular expression without the unicode flag: the
  white space and line terminator code units of the language.
\<close>

definition isWhiteSpace :: "jschar \<Rightarrow> bool" where
  "isWhiteSpace c \<longleftrightarrow>
     (9 \<le> c \<and> c \<le> 13) \<or> c = 32 \<or> c = 160 \<or> c = 0x1680 \<or>
     (0x2000 \<le> c \<and> c \<le> 0x200A) \<or> c = 0x2028 \<or> c = 0x2029 \<or>
     c = 0x202F \<or> c = 0x205F \<or> c = 0x3000 \<or> c = 0xFEFF"

text \<open>\<open>/^\s*$/.test(line)\<close>: without the multiline flag the anchors are the two
  ends of the string, so the test holds when every code unit is white space.\<close>

definition blank :: "jsstring \<Rightarrow> bool" where
  "blank ln = list_all isWhiteSpace ln"

section \<open>Settings\<close>

text \<open>
  \<open>blockType\<close> is kept as the string it is at run time, so that the \<open>default\<close>
  arms of the two switches are branches of the model.
\<close>

record InlineTranslateSettings =
  blockType :: jsstring
  preferredLanguages :: "jsstring list"
  targetLanguage :: jsstring

definition DEFAULT_SETTINGS :: InlineTranslateSettings where
  "DEFAULT_SETTINGS =
     \<lparr>blockType = js ''codeblock'', preferredLanguages = [], targetLanguage = js ''en''\<rparr>"

text \<open>
  What the persistence collaborator holds: nothing (first run), or an object with some
  of the three fields.
\<close>

record PersistedSettings =
  p_blockType :: "jsstring option"
  p_preferredLanguages :: "jsstring list option"
  p_targetLanguage :: "jsstring option"

text \<open>\<open>Object.assign({}, target, source)\<close>: every field the source has overwrites
  the target's; a source that is \<open>null\<close> contributes nothing.\<close>

definition object_assign ::
  "InlineTranslateSettings \<Rightarrow> PersistedSettings option \<Rightarrow> InlineTranslateSettings" where
  "object_assign target source =
     (case source of
        None \<Rightarrow> target
      | Some p \<Rightarrow>
          \<lparr>blockType = (case p_blockType p of Some v \<Rightarrow> v | None \<Rightarrow> blockType target),
           preferredLanguages =
             (case p_preferredLanguages p of Some v \<Rightarrow> v | None \<Rightarrow> preferredLanguages target),
           targetLanguage =
             (case p_targetLanguage p of Some v \<Rightarrow> v | None \<Rightarrow> targetLanguage target)\<rparr>)"

definition loadSettings :: "PersistedSettings option \<Rightarrow> InlineTranslateSettings" where
  "loadSettings data = object_assign DEFAULT_SETTINGS data"

definition saveSettings :: "InlineTranslateSettings \<Rightarrow> PersistedSettings option" where
  "saveSettings this =
     Some \<lparr>p_blockType = Some (blockType this),
           p_preferredLanguages = Some (preferredLanguages this),
           p_targetLanguage = Some (targetLanguage this)\<rparr>"

section \<open>Block formatter\<close>

definition fence :: jsstring where
  "fence = js [CHR 0x60, CHR 0x60, CHR 0x60]"

definition formatTranslation :: "InlineTranslateSettings \<Rightarrow> jsstring \<Rightarrow> jsstring" where
  "formatTranslation this txt =
     (if blockType this = js ''codeblock'' then
        fence @ [LF] @ txt @ [LF] @ fence
      else if blockType this = js ''quotation'' then
        join_nl (map (\<lambda>ln. js ''> '' @ ln) (split_nl txt))
      else if blockType this = js ''callout'' then
        js ''> [!translation]- ...'' @ [LF] @
        join_nl (map (\<lambda>ln. js ''> '' @ ln) (split_nl txt))
      else txt)"

definition getLinesAdded :: "InlineTranslateSettings \<Rightarrow> nat" where
  "getLinesAdded this =
     (if blockType this = js ''codeblock'' then 3
      else if blockType this = js ''quotation'' then 1
      else if blockType this = js ''callout'' then 2
      else 1)"

section \<open>The collaborators: backend, editor, notices, clipboard\<close>

text \<open>
  A call of the translation backend either resolves to a string or rejects.  The
  backend is any function of the number of calls made before and of the request, so
  every sequence of responses is a backend.
\<close>

record request =
  req_text :: jsstring
  req_to :: jsstring
  req_from :: jsstring

datatype response = Translated jsstring | Failed

type_synonym backend = "nat \<Rightarrow> request \<Rightarrow> response"

text \<open>
  The world a command runs in: the lines of the document, and what the command did to
  its collaborators, in order: the line numbers it read, the requests it sent to the
  backend, the notices it showed and the strings it wrote to the clipboard.
\<close>

record world =
  doc :: "jsstring list"
  reads :: "nat list"
  requests :: "request list"
  notices :: "jsstring list"
  clipboard :: "jsstring list"

datatype error = RangeError

record pos =
  line :: nat
  ch :: nat

text \<open>What the editor answers about the selection when a command starts.\<close>

record editor_selection =
  sel_text :: jsstring
  sel_from :: pos
  sel_to :: pos
  sel_head :: pos

text \<open>\<open>editor.getLine(n)\<close>; a line number outside the document is an error.\<close>

definition getLine :: "world \<Rightarrow> nat \<Rightarrow> error + (jsstring \<times> world)" where
  "getLine w n =
     (if n < length (doc w) then Inr (doc w ! n, w\<lparr>reads := reads w @ [n]\<rparr>)
      else Inl RangeError)"

text \<open>
  \<open>editor.replaceRange(replacement, p, q)\<close>: what is before \<open>p\<close> on its line, the
  replacement and what is after \<open>q\<close> on its line, broken into lines as the editor
  breaks a text (\<open>split_lines\<close>), take the place of the lines from \<open>p\<close>'s to \<open>q\<close>'s.
\<close>

definition replaceRange :: "jsstring \<Rightarrow> pos \<Rightarrow> pos \<Rightarrow> world \<Rightarrow> error + world" where
  "replaceRange replacement p q w =
     (if (line p < line q \<or> line p = line q \<and> ch p \<le> ch q) \<and>
         line q < length (doc w) \<and>
         ch p \<le> length (doc w ! line p) \<and> ch q \<le> length (doc w ! line q)
      then Inr (w\<lparr>doc :=
                  take (line p) (doc w) @
                  split_lines (take (ch p) (doc w ! line p) @ replacement @
                               drop (ch q) (doc w ! line q)) @
                  drop (line q + 1) (doc w)\<rparr>)
      else Inl RangeError)"

section \<open>Translation service adapter\<close>

text \<open>The arguments of the call \<open>translate(text, {to: ..., from: ...})\<close>.\<close>

definition translate_args :: "InlineTranslateSettings \<Rightarrow> jsstring \<Rightarrow> request" where
  "translate_args this txt =
     \<lparr>req_text = txt,
      req_to = targetLanguage this,
      req_from = (if length (preferredLanguages this) > 0
                  then preferredLanguages this ! 0 else js ''auto'')\<rparr>"

text \<open>
  \<open>translateText\<close>: one call of the backend; when it rejects, the \<open>catch\<close> arm shows
  a notice and returns the text it was given.
\<close>

definition translateText ::
  "InlineTranslateSettings \<Rightarrow> backend \<Rightarrow> jsstring \<Rightarrow> world \<Rightarrow> jsstring \<times> world" where
  "translateText this be txt w =
     (let rq = translate_args this txt;
          w1 = w\<lparr>requests := requests w @ [rq]\<rparr>
      in case be (length (requests w)) rq of
           Translated translatedText \<Rightarrow> (translatedText, w1)
         | Failed \<Rightarrow>
             (txt, w1\<lparr>notices := notices w1 @
                        [js ''Error translating text. Please try again later.'']\<rparr>))"

section \<open>Batch engine\<close>

text \<open>The body of the loop of \<open>inline-translate-line\<close>, for the index \<open>i\<close>.\<close>

definition body ::
  "InlineTranslateSettings \<Rightarrow> backend \<Rightarrow> world \<Rightarrow> nat \<Rightarrow> nat \<Rightarrow> error + (world \<times> nat \<times> nat)" where
  "body this be w i endLine =
     (case getLine w i of
        Inl e \<Rightarrow> Inl e
      | Inr (ln, w1) \<Rightarrow>
          if \<not> blank ln then
            (let (translatedText, w2) = translateText this be ln w1;
                 formattedTranslation = formatTranslation this translatedText
             in case replaceRange (ln @ [LF] @ formattedTranslation @ [LF])
                       \<lparr>line = i, ch = 0\<rparr> \<lparr>line = i, ch = length ln\<rparr> w2 of
                  Inl e \<Rightarrow> Inl e
                | Inr w3 \<Rightarrow>
                    Inr (w3, i + (getLinesAdded this + 1), endLine + (getLinesAdded this + 1)))
          else Inr (w1, i, endLine))"

text \<open>One iteration: the body, then the \<open>i++\<close> of the \<open>for\<close> statement.\<close>

definition iteration ::
  "InlineTranslateSettings \<Rightarrow> backend \<Rightarrow> world \<Rightarrow> nat \<Rightarrow> nat \<Rightarrow> error + (world \<times> nat \<times> nat)" where
  "iteration this be w i endLine =
     (case body this be w i endLine of
        Inl e \<Rightarrow> Inl e
      | Inr (w', i', endLine') \<Rightarrow> Inr (w', i' + 1, endLine'))"

text \<open>\<open>for (let i = startLine; i <= endLine; i++) { ... }\<close>, from the index \<open>i\<close> on.\<close>

function loop ::
  "InlineTranslateSettings \<Rightarrow> backend \<Rightarrow> world \<Rightarrow> nat \<Rightarrow> nat \<Rightarrow> error + (world \<times> nat \<times> nat)" where
  "loop this be w i endLine =
     (if i \<le> endLine then
        (case iteration this be w i endLine of
           Inl e \<Rightarrow> Inl e
         | Inr (w', i', endLine') \<Rightarrow> loop this be w' i' endLine')
      else Inr (w, i, endLine))"
  by pat_completeness auto
termination
proof (relation "measure (\<lambda>(this, be, w, i, endLine). endLine + 1 - i)")
  show "wf (measure (\<lambda>(this, be, w, i, endLine). endLine + 1 - i))"
    by simp
next
  fix this :: InlineTranslateSettings and be :: backend and w w' :: world
    and i endLine i' endLine' :: nat and r :: "world \<times> nat \<times> nat" and r' :: "nat \<times> nat"
  assume le: "i \<le> endLine"
    and it: "iteration this be w i endLine = Inr r" "(w', r') = r" "(i', endLine') = r'"
  from it have "endLine' + i + 1 = endLine + i'"
    by (auto simp: iteration_def body_def Let_def
          split: sum.splits prod.splits if_splits)
  with le show "((this, be, w', i', endLine'), (this, be, w, i, endLine))
     \<in> measure (\<lambda>(this, be, w, i, endLine). endLine + 1 - i)"
    by simp
qed

declare loop.simps [simp del]

text \<open>The command \<open>inline-translate-line\<close>.\<close>

definition inline_translate_line ::
  "InlineTranslateSettings \<Rightarrow> backend \<Rightarrow> editor_selection \<Rightarrow> world \<Rightarrow> error + world" where
  "inline_translate_line this be sel w =
     (let (startLine, endLine) =
            (if sel_text sel \<noteq> [] then (line (sel_from sel), line (sel_to sel))
             else (line (sel_head sel), line (sel_head sel)))
      in case loop this be w startLine endLine of
           Inl e \<Rightarrow> Inl e
         | Inr (w', i', endLine') \<Rightarrow> Inr w')"

text \<open>The command \<open>translate-to-notice\<close>.\<close>

definition translate_to_notice ::
  "InlineTranslateSettings \<Rightarrow> backend \<Rightarrow> editor_selection \<Rightarrow> world \<Rightarrow> world" where
  "translate_to_notice this be sel w =
     (if sel_text sel \<noteq> [] then
        (let (translatedText, w1) = translateText this be (sel_text sel) w;
             w2 = w1\<lparr>notices := notices w1 @ [translatedText]\<rparr>
         in w2\<lparr>clipboard := clipboard w2 @ [translatedText]\<rparr>)
      else w\<lparr>notices := notices w @ [js ''No text selected for translation.'']\<rparr>)"

section \<open>The annotated document\<close>

text \<open>What \<open>translateText\<close> returns for a text when \<open>n\<close> requests were made before:
  the answer of the backend, or the text itself when the backend rejects.\<close>

definition answer :: "InlineTranslateSettings \<Rightarrow> backend \<Rightarrow> nat \<Rightarrow> jsstring \<Rightarrow> jsstring" where
  "answer this be n txt =
     (case be n (translate_args this txt) of Translated t \<Rightarrow> t | Failed \<Rightarrow> txt)"

text \<open>
  The lines the specification describes for a range of original lines, written from its
  words and not from the loop: a blank line stays as it is; any other line is kept and
  the lines of its formatted translation and one empty line come after it.  \<open>n\<close> counts
  the requests made before.
\<close>

fun annotated ::
  "InlineTranslateSettings \<Rightarrow> backend \<Rightarrow> nat \<Rightarrow> jsstring list \<Rightarrow> jsstring list" where
  "annotated this be n [] = []"
| "annotated this be n (l # ls) =
     (if blank l then l # annotated this be n ls
      else l # split_nl (formatTranslation this (answer this be n l)) @ [[]] @
           annotated this be (Suc n) ls)"

section \<open>Example inputs\<close>

text \<open>A world with the given document in which nothing has happened yet, a backend
  that answers every request with \<open>Bonjour\<close>, and one that rejects every request.\<close>

definition start_world :: "jsstring list \<Rightarrow> world" where
  "start_world lns = \<lparr>doc = lns, reads = [], requests = [], notices = [], clipboard = []\<rparr>"

definition bonjour_backend :: backend where
  "bonjour_backend n rq = Translated (js ''Bonjour'')"

definition failing_backend :: backend where
  "failing_backend n rq = Failed"

text \<open>A backend whose every answer has two lines.\<close>

definition two_line_backend :: backend where
  "two_line_backend n rq = Translated (js ''a'' @ [LF] @ js ''b'')"

text \<open>The selection of the line \<open>Hello\<close> with its line break, in a document where
  it is the first line.\<close>

definition hello_selection :: editor_selection where
  "hello_selection =
     \<lparr>sel_text = js ''Hello'' @ [LF], sel_from = \<lparr>line = 0, ch = 0\<rparr>,
      sel_to = \<lparr>line = 1, ch = 0\<rparr>, sel_head = \<lparr>line = 1, ch = 0\<rparr>\<rparr>"

section \<open>Splitting and joining at newlines\<close>

lemma split_nl_not_Nil: "split_nl s \<noteq> []"
  by (induction s) auto

text \<open>The equation for evaluating \<open>split_nl\<close> on a given string, one pass.\<close>

lemma split_nl_Cons:
  "split_nl (c # cs) =
     (if c = LF then [] # split_nl cs
      else (case split_nl cs of l # ls \<Rightarrow> (c # l) # ls))"
  using split_nl_not_Nil [of cs] by (cases "split_nl cs") auto

lemma split_nl_no_LF: "LF \<notin> set s \<Longrightarrow> split_nl s = [s]"
  by (induction s) auto

lemma split_nl_append_LF: "LF \<notin> set a \<Longrightarrow> split_nl (a @ LF # b) = a # split_nl b"
  by (induction a) auto

lemma length_split_nl: "length (split_nl s) = Suc (count_list s LF)"
  by (induction s) (auto simp: split_nl_not_Nil)

lemma split_nl_lines: "l \<in> set (split_nl s) \<Longrightarrow> LF \<notin> set l"
proof (induction s arbitrary: l)
  case Nil
  then show ?case by simp
next
  case (Cons c cs)
  obtain h t where ht: "split_nl cs = h # t"
    using split_nl_not_Nil by (cases "split_nl cs") auto
  with Cons show ?case by (auto split: if_splits)
qed

lemma split_join_nl:
  "ls \<noteq> [] \<Longrightarrow> \<forall>l\<in>set ls. LF \<notin> set l \<Longrightarrow> split_nl (join_nl ls) = ls"
proof (induction ls rule: join_nl.induct)
  case 1
  then show ?case by simp
next
  case (2 l)
  then show ?case by (simp add: split_nl_no_LF)
next
  case (3 l m ls)
  then show ?case by (simp add: split_nl_append_LF)
qed

text \<open>The lines of the editor: never none, those of \<open>split_nl\<close> when the text has
  no carriage return, and in any case at least one more than the text has line feeds.\<close>

lemma split_lines_not_Nil: "split_lines s \<noteq> []"
  by (induction s rule: split_lines.induct) auto

lemma split_lines_no_CR: "CR \<notin> set s \<Longrightarrow> split_lines s = split_nl s"
  by (induction s rule: split_lines.induct) auto

lemma length_split_lines_ge: "Suc (count_list s LF) \<le> length (split_lines s)"
  by (induction s rule: split_lines.induct) (auto simp: split_lines_not_Nil)

declare split_nl.simps(2) [simp del]

declare split_lines.simps(3) [simp del]

lemma quote_no_LF: "LF \<notin> set (js ''> '')"
  by (simp add: js_def)

lemma fence_no_LF: "LF \<notin> set fence"
  by (simp add: fence_def js_def)

lemma header_no_LF: "LF \<notin> set (js ''> [!translation]- ...'')"
  by (simp add: js_def)

lemma quote_no_CR: "CR \<notin> set (js ''> '')"
  by (simp add: js_def)

lemma fence_no_CR: "CR \<notin> set fence"
  by (simp add: fence_def js_def)

lemma header_no_CR: "CR \<notin> set (js ''> [!translation]- ...'')"
  by (simp add: js_def)

lemma split_nl_quoted:
  "split_nl (join_nl (map (\<lambda>ln. js ''> '' @ ln) (split_nl txt))) =
     map (\<lambda>ln. js ''> '' @ ln) (split_nl txt)"
  by (rule split_join_nl) (auto simp: split_nl_not_Nil quote_no_LF dest: split_nl_lines)

lemma block_types_distinct:
  "js ''codeblock'' \<noteq> js ''quotation''" "js ''codeblock'' \<noteq> js ''callout''"
  "js ''quotation'' \<noteq> js ''callout''" "js ''quotation'' \<noteq> js ''codeblock''"
  "js ''callout'' \<noteq> js ''codeblock''" "js ''callout'' \<noteq> js ''quotation''"
  by (simp_all add: js_def)

section \<open>The formatter and its line count\<close>

text \<open>
  The formatted block of a translation never has fewer lines than \<open>getLinesAdded\<close>
  says, whatever the block type and the translation.
\<close>

lemma getLinesAdded_le_lines:
  "getLinesAdded this \<le> Suc (count_list (formatTranslation this txt) LF)"
  by (simp add: getLinesAdded_def formatTranslation_def)

text \<open>
  C2, as stated: for each of the three block types and every single-line \<open>x\<close>,
  \<open>getLinesAdded\<close> is the number of newline characters that \<open>formatTranslation x\<close>
  introduces.  It fails for the code block of \<open>Bonjour\<close>: the block has two newline
  characters and \<open>getLinesAdded\<close> is 3.
\<close>

theorem getLinesAdded_newlines_counterexample:
  "blockType DEFAULT_SETTINGS = js ''codeblock'' \<and> LF \<notin> set (js ''Bonjour'') \<and>
   getLinesAdded DEFAULT_SETTINGS \<noteq>
     count_list (formatTranslation DEFAULT_SETTINGS (js ''Bonjour'')) LF"
  by (simp add: DEFAULT_SETTINGS_def getLinesAdded_def formatTranslation_def fence_def js_def)

text \<open>
  C2, amended: for each of the three block types and every single-line \<open>x\<close>,
  \<open>getLinesAdded\<close> is the number of newline characters of \<open>formatTranslation x\<close>
  plus one, which is the number of lines of the formatted block.
\<close>

theorem getLinesAdded_counts_block_lines:
  assumes "blockType this \<in> {js ''codeblock'', js ''quotation'', js ''callout''}"
    and "LF \<notin> set x"
  shows "getLinesAdded this = count_list (formatTranslation this x) LF + 1 \<and>
         getLinesAdded this = length (split_nl (formatTranslation this x))"
  using assms
  by (auto simp: formatTranslation_def getLinesAdded_def block_types_distinct
        length_split_nl split_nl_no_LF fence_no_LF header_no_LF quote_no_LF)

theorem getLinesAdded_counts_block_lines_witness:
  "blockType DEFAULT_SETTINGS \<in> {js ''codeblock'', js ''quotation'', js ''callout''} \<and>
   LF \<notin> set (js ''Bonjour'') \<and>
   getLinesAdded DEFAULT_SETTINGS =
     count_list (formatTranslation DEFAULT_SETTINGS (js ''Bonjour'')) LF + 1 \<and>
   getLinesAdded DEFAULT_SETTINGS =
     length (split_nl (formatTranslation DEFAULT_SETTINGS (js ''Bonjour'')))"
proof -
  have bt: "blockType DEFAULT_SETTINGS \<in> {js ''codeblock'', js ''quotation'', js ''callout''}"
    by (simp add: DEFAULT_SETTINGS_def)
  have nl: "LF \<notin> set (js ''Bonjour'')"
    by (simp add: js_def)
  from getLinesAdded_counts_block_lines [OF bt nl] bt nl show ?thesis
    by blast
qed

text \<open>
  C7: with the block type \<open>quotation\<close> the lines of the formatted text are the lines
  of the text, each after a quotation marker, and \<open>getLinesAdded\<close> is 1; with
  \<open>callout\<close> they are the line that declares the collapsible translation callout and
  then the same marked lines, and \<open>getLinesAdded\<close> is 2; with a block type that is
  none of the three the text is returned as it is and \<open>getLinesAdded\<close> is 1.
\<close>

theorem format_quotation_callout_default:
  "(blockType this = js ''quotation'' \<longrightarrow>
      formatTranslation this txt = join_nl (map (\<lambda>ln. js ''> '' @ ln) (split_nl txt)) \<and>
      split_nl (formatTranslation this txt) = map (\<lambda>ln. js ''> '' @ ln) (split_nl txt) \<and>
      getLinesAdded this = 1) \<and>
   (blockType this = js ''callout'' \<longrightarrow>
      split_nl (formatTranslation this txt) =
        js ''> [!translation]- ...'' # map (\<lambda>ln. js ''> '' @ ln) (split_nl txt) \<and>
      getLinesAdded this = 2) \<and>
   (blockType this \<notin> {js ''codeblock'', js ''quotation'', js ''callout''} \<longrightarrow>
      formatTranslation this txt = txt \<and> getLinesAdded this = 1)"
  by (simp add: formatTranslation_def getLinesAdded_def block_types_distinct
        split_nl_quoted split_nl_append_LF header_no_LF)

theorem format_quotation_callout_default_witness:
  "split_nl (formatTranslation (DEFAULT_SETTINGS\<lparr>blockType := js ''quotation''\<rparr>)
      (js ''Salut'' @ [LF] @ js ''Monde'')) = [js ''> Salut'', js ''> Monde''] \<and>
   getLinesAdded (DEFAULT_SETTINGS\<lparr>blockType := js ''quotation''\<rparr>) = 1 \<and>
   split_nl (formatTranslation (DEFAULT_SETTINGS\<lparr>blockType := js ''callout''\<rparr>)
      (js ''Salut'' @ [LF] @ js ''Monde'')) =
     [js ''> [!translation]- ...'', js ''> Salut'', js ''> Monde''] \<and>
   getLinesAdded (DEFAULT_SETTINGS\<lparr>blockType := js ''callout''\<rparr>) = 2 \<and>
   formatTranslation (DEFAULT_SETTINGS\<lparr>blockType := js ''table''\<rparr>)
      (js ''Salut'' @ [LF] @ js ''Monde'') = js ''Salut'' @ [LF] @ js ''Monde'' \<and>
   getLinesAdded (DEFAULT_SETTINGS\<lparr>blockType := js ''table''\<rparr>) = 1"
  using
    format_quotation_callout_default
      [of "DEFAULT_SETTINGS\<lparr>blockType := js ''quotation''\<rparr>" "js ''Salut'' @ [LF] @ js ''Monde''"]
    format_quotation_callout_default
      [of "DEFAULT_SETTINGS\<lparr>blockType := js ''callout''\<rparr>" "js ''Salut'' @ [LF] @ js ''Monde''"]
    format_quotation_callout_default
      [of "DEFAULT_SETTINGS\<lparr>blockType := js ''table''\<rparr>" "js ''Salut'' @ [LF] @ js ''Monde''"]
  by (simp add: js_def split_nl_Cons)

section \<open>Lines of a replacement, effects of a translation\<close>

lemma split_nl_append_LF_gen: "split_nl (a @ LF # b) = split_nl a @ split_nl b"
proof (induction a)
  case Nil
  show ?case by (simp add: split_nl_Cons)
next
  case (Cons c a)
  obtain h t where ht: "split_nl a = h # t"
    using split_nl_not_Nil [of a] by (cases "split_nl a") auto
  with Cons show ?case by (simp add: split_nl_Cons)
qed

lemma split_nl_replacement:
  "split_nl (ln @ LF # f @ [LF]) = split_nl ln @ split_nl f @ [[]]"
  by (simp add: split_nl_append_LF_gen)

lemma length_format_lines:
  "LF \<notin> set t \<Longrightarrow> length (split_nl (formatTranslation this t)) = getLinesAdded this"
  by (simp add: formatTranslation_def getLinesAdded_def length_split_nl
        split_nl_no_LF fence_no_LF header_no_LF quote_no_LF)

lemma format_no_CR: "no_break t \<Longrightarrow> CR \<notin> set (formatTranslation this t)"
  by (simp add: formatTranslation_def no_break_def split_nl_no_LF
        fence_no_CR header_no_CR quote_no_CR)

text \<open>The lines the editor makes of the replacement, when it has no carriage return.\<close>

lemma split_lines_replacement:
  assumes "no_break ln" and "CR \<notin> set f"
  shows "split_lines (ln @ [LF] @ f @ [LF]) = ln # split_nl f @ [[]]"
proof -
  have "CR \<notin> set (ln @ [LF] @ f @ [LF])"
    using assms by (simp add: no_break_def)
  then have "split_lines (ln @ [LF] @ f @ [LF]) = split_nl (ln @ [LF] @ f @ [LF])"
    by (rule split_lines_no_CR)
  also have "\<dots> = ln # split_nl f @ [[]]"
    using assms(1) by (simp add: split_nl_replacement split_nl_no_LF no_break_def)
  finally show ?thesis .
qed

lemma translateText_fst:
  "fst (translateText this be txt w) = answer this be (length (requests w)) txt"
  by (simp add: translateText_def answer_def Let_def split: response.splits)

lemma translateText_doc: "doc (snd (translateText this be txt w)) = doc w"
  by (simp add: translateText_def Let_def split: response.splits)

lemma translateText_reads: "reads (snd (translateText this be txt w)) = reads w"
  by (simp add: translateText_def Let_def split: response.splits)

lemma translateText_requests:
  "requests (snd (translateText this be txt w)) = requests w @ [translate_args this txt]"
  by (simp add: translateText_def Let_def split: response.splits)

lemma body_blank:
  assumes "i < length (doc w)" "blank (doc w ! i)"
  shows "body this be w i endLine = Inr (w\<lparr>reads := reads w @ [i]\<rparr>, i, endLine)"
  using assms by (simp add: body_def getLine_def)

lemma body_nonblank:
  assumes "i < length (doc w)" "\<not> blank (doc w ! i)"
  shows "body this be w i endLine =
     Inr ((snd (translateText this be (doc w ! i) (w\<lparr>reads := reads w @ [i]\<rparr>)))
            \<lparr>doc := take i (doc w) @
                    split_lines (doc w ! i @ [LF] @
                      formatTranslation this
                        (fst (translateText this be (doc w ! i) (w\<lparr>reads := reads w @ [i]\<rparr>))) @
                      [LF]) @
                    drop (Suc i) (doc w)\<rparr>,
          i + (getLinesAdded this + 1), endLine + (getLinesAdded this + 1))"
proof -
  obtain t w2 where tr: "translateText this be (doc w ! i) (w\<lparr>reads := reads w @ [i]\<rparr>) = (t, w2)"
    by (cases "translateText this be (doc w ! i) (w\<lparr>reads := reads w @ [i]\<rparr>)")
  have d: "doc w2 = doc w"
    using translateText_doc [of this be "doc w ! i" "w\<lparr>reads := reads w @ [i]\<rparr>"] tr
    by simp
  show ?thesis
    using assms by (simp add: body_def getLine_def replaceRange_def tr d)
qed

section \<open>The adapter contains backend failures\<close>

text \<open>
  C5: for every input text, when the call of the backend fails, \<open>translateText\<close>
  still returns: it has made the one request, shown the notice of the failure, and its
  result is the text it was given; when the call succeeds, its result is the string of
  the backend and no notice is shown.
\<close>

theorem translateText_absorbs_failure:
  "(be (length (requests w)) (translate_args this txt) = Failed \<longrightarrow>
      translateText this be txt w =
        (txt, w\<lparr>requests := requests w @ [translate_args this txt],
                 notices := notices w @
                   [js ''Error translating text. Please try again later.'']\<rparr>)) \<and>
   (be (length (requests w)) (translate_args this txt) = Translated t \<longrightarrow>
      translateText this be txt w =
        (t, w\<lparr>requests := requests w @ [translate_args this txt]\<rparr>))"
  by (simp add: translateText_def Let_def)

theorem translateText_absorbs_failure_witness:
  "translateText DEFAULT_SETTINGS failing_backend (js ''Hello'') (start_world [js ''Hello'']) =
     (js ''Hello'',
      \<lparr>doc = [js ''Hello''], reads = [],
       requests = [\<lparr>req_text = js ''Hello'', req_to = js ''en'', req_from = js ''auto''\<rparr>],
       notices = [js ''Error translating text. Please try again later.''],
       clipboard = []\<rparr>) \<and>
   translateText DEFAULT_SETTINGS bonjour_backend (js ''Hello'') (start_world [js ''Hello'']) =
     (js ''Bonjour'',
      \<lparr>doc = [js ''Hello''], reads = [],
       requests = [\<lparr>req_text = js ''Hello'', req_to = js ''en'', req_from = js ''auto''\<rparr>],
       notices = [], clipboard = []\<rparr>)"
  using
    translateText_absorbs_failure
      [of failing_backend "start_world [js ''Hello'']" DEFAULT_SETTINGS "js ''Hello''"]
    translateText_absorbs_failure
      [of bonjour_backend "start_world [js ''Hello'']" DEFAULT_SETTINGS "js ''Hello''"
          "js ''Bonjour''"]
  by (simp add: failing_backend_def bonjour_backend_def start_world_def translate_args_def
        DEFAULT_SETTINGS_def)

section \<open>One line of the per-line command\<close>

text \<open>
  C6: for a line that is empty or all white space, the body of the loop changes
  nothing but the record that the line was read: the document, the requests and the
  notices are as before, and \<open>i\<close> and \<open>endLine\<close> leave the body as they entered it,
  so the iteration ends with the step of the loop to \<open>i + 1\<close>.
\<close>

theorem blank_line_skipped:
  assumes "i < length (doc w)" and "blank (doc w ! i)"
  shows "body this be w i endLine = Inr (w\<lparr>reads := reads w @ [i]\<rparr>, i, endLine) \<and>
         iteration this be w i endLine = Inr (w\<lparr>reads := reads w @ [i]\<rparr>, i + 1, endLine)"
  using assms by (simp add: iteration_def body_def getLine_def)

theorem blank_line_skipped_witness:
  "1 < length (doc (start_world [js ''Hello'', js ''  '', js ''World''])) \<and>
   blank (doc (start_world [js ''Hello'', js ''  '', js ''World'']) ! 1) \<and>
   body DEFAULT_SETTINGS bonjour_backend (start_world [js ''Hello'', js ''  '', js ''World'']) 1 2 =
     Inr (\<lparr>doc = [js ''Hello'', js ''  '', js ''World''], reads = [1], requests = [],
           notices = [], clipboard = []\<rparr>, 1, 2) \<and>
   iteration DEFAULT_SETTINGS bonjour_backend
       (start_world [js ''Hello'', js ''  '', js ''World'']) 1 2 =
     Inr (\<lparr>doc = [js ''Hello'', js ''  '', js ''World''], reads = [1], requests = [],
           notices = [], clipboard = []\<rparr>, 2, 2)"
proof -
  have 1: "1 < length (doc (start_world [js ''Hello'', js ''  '', js ''World'']))"
    by (simp add: start_world_def)
  have 2: "blank (doc (start_world [js ''Hello'', js ''  '', js ''World'']) ! 1)"
    by (simp add: start_world_def blank_def isWhiteSpace_def js_def)
  from blank_line_skipped [OF 1 2, of DEFAULT_SETTINGS bonjour_backend 2] 1 2
  show ?thesis
    by (simp add: start_world_def)
qed

section \<open>Iterations of the loop\<close>

lemma iteration_blank:
  assumes "i < length (doc w)" "blank (doc w ! i)"
  shows "iteration this be w i e = Inr (w\<lparr>reads := reads w @ [i]\<rparr>, i + 1, e)"
  using assms by (simp add: iteration_def body_blank)

lemma iteration_nonblank:
  assumes "i < length (doc w)" "\<not> blank (doc w ! i)"
  shows "iteration this be w i e =
     Inr ((snd (translateText this be (doc w ! i) (w\<lparr>reads := reads w @ [i]\<rparr>)))
            \<lparr>doc := take i (doc w) @
                    split_lines (doc w ! i @ [LF] @
                      formatTranslation this
                        (fst (translateText this be (doc w ! i) (w\<lparr>reads := reads w @ [i]\<rparr>))) @
                      [LF]) @
                    drop (Suc i) (doc w)\<rparr>,
          i + (getLinesAdded this + 2), e + (getLinesAdded this + 1))"
  using assms by (simp add: iteration_def body_nonblank)

lemma length_replacement_lines:
  "getLinesAdded this + 2 \<le> length (split_lines (ln @ [LF] @ formatTranslation this t @ [LF]))"
  using getLinesAdded_le_lines [of this t]
    length_split_lines_ge [of "ln @ [LF] @ formatTranslation this t @ [LF]"]
  by simp

text \<open>What every iteration on a line of the document does to the counters, to the
  length of the document and to the record of the lines read.\<close>

lemma iteration_inside:
  assumes "i < length (doc w)"
  shows "\<exists>w' i' e'. iteration this be w i e = Inr (w', i', e') \<and>
           e' + i + 1 = e + i' \<and> i < i' \<and>
           length (doc w) + e' \<le> length (doc w') + e \<and>
           reads w' = reads w @ [i]"
proof (cases "blank (doc w ! i)")
  case True
  with assms show ?thesis
    by (simp add: iteration_blank)
next
  case False
  have "length (doc w) + (getLinesAdded this + 1) \<le>
      i + length (split_lines (doc w ! i @ [LF] @
                      formatTranslation this
                        (fst (translateText this be (doc w ! i) (w\<lparr>reads := reads w @ [i]\<rparr>))) @
                      [LF])) + (length (doc w) - Suc i)"
    using assms
      length_replacement_lines [of this "doc w ! i"
        "fst (translateText this be (doc w ! i) (w\<lparr>reads := reads w @ [i]\<rparr>))"]
    by linarith
  with assms False show ?thesis
    by (simp add: iteration_nonblank translateText_reads min_def)
qed

lemma loop_step:
  "i \<le> e \<Longrightarrow> iteration this be w i e = Inr (w', i', e') \<Longrightarrow>
   loop this be w i e = loop this be w' i' e'"
  by (simp add: loop.simps [of this be w i e])

lemma loop_done: "e < i \<Longrightarrow> loop this be w i e = Inr (w, i, e)"
  by (simp add: loop.simps [of this be w i e])

text \<open>
  When the range lies in the document the loop never reads outside it: the document
  grows by at least as many lines as \<open>endLine\<close>.  So the loop ends normally, having
  read one line in each of its \<open>endLine + 1 - i\<close> iterations.
\<close>

lemma loop_total:
  "e + 1 - i = n \<Longrightarrow> i \<le> e \<longrightarrow> e < length (doc w) \<Longrightarrow>
   \<exists>w' i' e' ps. loop this be w i e = Inr (w', i', e') \<and>
      reads w' = reads w @ ps \<and> length ps = n \<and>
      (i \<le> e \<longrightarrow> hd ps = i) \<and> (i \<le> e + 1 \<longrightarrow> i' = e' + 1)"
proof (induction n arbitrary: w i e)
  case 0
  then have "\<not> i \<le> e" by simp
  then show ?case
    by (simp add: loop.simps)
next
  case (Suc n)
  from Suc.prems(1) have le: "i \<le> e"
    by simp
  with Suc.prems(2) have inside: "i < length (doc w)" "e < length (doc w)"
    by simp_all
  from iteration_inside [OF inside(1), of this be e]
  obtain w1 i1 e1 where it: "iteration this be w i e = Inr (w1, i1, e1)"
    and cnt: "e1 + i + 1 = e + i1" and grow: "length (doc w) + e1 \<le> length (doc w1) + e"
    and rd: "reads w1 = reads w @ [i]"
    by blast
  have n: "e1 + 1 - i1 = n"
    using Suc.prems(1) cnt le by simp
  have ins: "e1 < length (doc w1)"
    using grow inside(2) by simp
  from Suc.IH [OF n] ins
  obtain w' i' e' ps where lp: "loop this be w1 i1 e1 = Inr (w', i', e')"
    and rds: "reads w' = reads w1 @ ps" and len: "length ps = n"
    and fin: "i1 \<le> e1 + 1 \<longrightarrow> i' = e' + 1"
    by blast
  have "loop this be w i e = Inr (w', i', e')"
    using le it lp by (simp add: loop.simps [of this be w i e])
  moreover have "reads w' = reads w @ (i # ps)"
    using rds rd by simp
  moreover have "i' = e' + 1"
    using fin cnt le by simp
  ultimately show ?case
    using len le by (intro exI [of _ w'] exI [of _ i'] exI [of _ e'] exI [of _ "i # ps"]) simp
qed

section \<open>Termination and the number of iterations\<close>

text \<open>
  C10: the loop terminates for every range of the document and every backend (\<open>loop\<close>
  is a total function, by the measure \<open>endLine + 1 - i\<close>, and it ends normally).  Each
  iteration reads one line and decreases \<open>endLine - i\<close> by exactly 1: on a blank line
  \<open>i\<close> advances by 1 and \<open>endLine\<close> stays, on any other line \<open>i\<close> advances by
  \<open>getLinesAdded + 2\<close> (the body and the step of the loop) and \<open>endLine\<close> by
  \<open>getLinesAdded + 1\<close>.  Hence the loop performs exactly
  \<open>endLine - startLine + 1\<close> iterations, counted by the lines it reads.
\<close>

theorem loop_iterations:
  assumes "startLine \<le> endLine" and "endLine < length (doc w)"
    and "i < length (doc w0)"
  shows "(\<exists>w' i' e' ps. loop this be w startLine endLine = Inr (w', i', e') \<and>
            i' = e' + 1 \<and> reads w' = reads w @ ps \<and>
            length ps = endLine - startLine + 1) \<and>
         (\<exists>w' i' e'. iteration this be w0 i e = Inr (w', i', e') \<and>
            reads w' = reads w0 @ [i] \<and>
            int e' - int i' = int e - int i - 1 \<and>
            (if blank (doc w0 ! i) then i' = i + 1 \<and> e' = e
             else i' = i + (getLinesAdded this + 2) \<and> e' = e + (getLinesAdded this + 1)))"
proof -
  have ins: "startLine \<le> endLine \<longrightarrow> endLine < length (doc w)"
    using assms(2) by simp
  from loop_total [OF refl ins, of this be] assms(1)
  have a: "\<exists>w' i' e' ps. loop this be w startLine endLine = Inr (w', i', e') \<and>
            i' = e' + 1 \<and> reads w' = reads w @ ps \<and>
            length ps = endLine - startLine + 1"
    by fastforce
  have b: "\<exists>w' i' e'. iteration this be w0 i e = Inr (w', i', e') \<and>
            reads w' = reads w0 @ [i] \<and>
            int e' - int i' = int e - int i - 1 \<and>
            (if blank (doc w0 ! i) then i' = i + 1 \<and> e' = e
             else i' = i + (getLinesAdded this + 2) \<and> e' = e + (getLinesAdded this + 1))"
    using assms(3)
    by (cases "blank (doc w0 ! i)")
      (simp_all add: iteration_blank iteration_nonblank translateText_reads)
  from a b show ?thesis
    by blast
qed

theorem loop_iterations_witness:
  "(0::nat) \<le> 1 \<and> 1 < length (doc (start_world [js ''Hello'', []])) \<and>
   0 < length (doc (start_world [js ''Hello'', []])) \<and>
   (\<exists>w' i' e' ps.
      loop DEFAULT_SETTINGS bonjour_backend (start_world [js ''Hello'', []]) 0 1 =
        Inr (w', i', e') \<and>
      i' = e' + 1 \<and> reads w' = reads (start_world [js ''Hello'', []]) @ ps \<and>
      length ps = 1 - 0 + 1) \<and>
   (\<exists>w' i' e'.
      iteration DEFAULT_SETTINGS bonjour_backend (start_world [js ''Hello'', []]) 0 1 =
        Inr (w', i', e') \<and>
      reads w' = reads (start_world [js ''Hello'', []]) @ [0] \<and>
      int e' - int i' = int 1 - int 0 - 1 \<and>
      (if blank (doc (start_world [js ''Hello'', []]) ! 0) then i' = 0 + 1 \<and> e' = 1
       else i' = 0 + (getLinesAdded DEFAULT_SETTINGS + 2) \<and>
            e' = 1 + (getLinesAdded DEFAULT_SETTINGS + 1)))"
proof -
  have 1: "(0::nat) \<le> 1"
    by simp
  have 2: "1 < length (doc (start_world [js ''Hello'', []]))"
    by (simp add: start_world_def)
  have 3: "0 < length (doc (start_world [js ''Hello'', []]))"
    by (simp add: start_world_def)
  from loop_iterations [OF 1 2 3, of DEFAULT_SETTINGS bonjour_backend 1] 1 2 3
  show ?thesis
    by blast
qed

section \<open>The line Hello in a code block\<close>

lemma iteration_hello_codeblock:
  assumes bt: "blockType this = js ''codeblock''"
    and ins: "i < length (doc w)" and ln: "doc w ! i = js ''Hello''"
    and be: "be (length (requests w)) (translate_args this (js ''Hello'')) =
               Translated (js ''Bonjour'')"
  shows "iteration this be w i endLine =
     Inr (w\<lparr>doc := take i (doc w) @ [js ''Hello'', fence, js ''Bonjour'', fence, []] @
                    drop (Suc i) (doc w),
             reads := reads w @ [i],
             requests := requests w @ [translate_args this (js ''Hello'')]\<rparr>,
          i + 5, endLine + 4)"
proof -
  have nb: "\<not> blank (doc w ! i)"
    by (simp add: ln blank_def isWhiteSpace_def js_def)
  have tr: "translateText this be (js ''Hello'') (w\<lparr>reads := reads w @ [i]\<rparr>) =
      (js ''Bonjour'',
       w\<lparr>reads := reads w @ [i], requests := requests w @ [translate_args this (js ''Hello'')]\<rparr>)"
    using be by (simp add: translateText_def)
  have h: "LF \<notin> set (js ''Hello'')" and b: "LF \<notin> set (js ''Bonjour'')"
    by (simp_all add: js_def)
  have hb: "no_break (js ''Hello'')" "no_break (js ''Bonjour'')"
    by (simp_all add: no_break_def js_def)
  have fm: "split_nl (formatTranslation this (js ''Bonjour'')) = [fence, js ''Bonjour'', fence]"
    using b by (simp add: formatTranslation_def bt split_nl_append_LF_gen split_nl_no_LF fence_no_LF)
  have sp: "split_lines (js ''Hello'' @ [LF] @ formatTranslation this (js ''Bonjour'') @ [LF]) =
      [js ''Hello'', fence, js ''Bonjour'', fence, []]"
    using split_lines_replacement [OF hb(1) format_no_CR [OF hb(2), of this]] fm by simp
  have gl: "getLinesAdded this = 3"
    by (simp add: getLinesAdded_def bt)
  show ?thesis
    using iteration_nonblank [OF ins nb, of this be endLine] sp
    by (simp add: ln tr gl)
qed

lemma hello_run:
  "loop DEFAULT_SETTINGS bonjour_backend (start_world [js ''Hello'', []]) 0 1 =
     Inr (\<lparr>doc = [js ''Hello'', fence, js ''Bonjour'', fence, [], []], reads = [0, 5],
           requests = [\<lparr>req_text = js ''Hello'', req_to = js ''en'', req_from = js ''auto''\<rparr>],
           notices = [], clipboard = []\<rparr>, 6, 5)"
proof -
  have 1: "iteration DEFAULT_SETTINGS bonjour_backend (start_world [js ''Hello'', []]) 0 1 =
      Inr (\<lparr>doc = [js ''Hello'', fence, js ''Bonjour'', fence, [], []], reads = [0],
            requests = [\<lparr>req_text = js ''Hello'', req_to = js ''en'', req_from = js ''auto''\<rparr>],
            notices = [], clipboard = []\<rparr>, 5, 5)"
    using iteration_hello_codeblock
      [of DEFAULT_SETTINGS 0 "start_world [js ''Hello'', []]" bonjour_backend 1]
    by (simp add: start_world_def DEFAULT_SETTINGS_def bonjour_backend_def translate_args_def)
  have 2: "iteration DEFAULT_SETTINGS bonjour_backend
      \<lparr>doc = [js ''Hello'', fence, js ''Bonjour'', fence, [], []], reads = [0],
       requests = [\<lparr>req_text = js ''Hello'', req_to = js ''en'', req_from = js ''auto''\<rparr>],
       notices = [], clipboard = []\<rparr> 5 5 =
      Inr (\<lparr>doc = [js ''Hello'', fence, js ''Bonjour'', fence, [], []], reads = [0, 5],
            requests = [\<lparr>req_text = js ''Hello'', req_to = js ''en'', req_from = js ''auto''\<rparr>],
            notices = [], clipboard = []\<rparr>, 6, 5)"
    by (simp add: iteration_blank blank_def)
  have "loop DEFAULT_SETTINGS bonjour_backend (start_world [js ''Hello'', []]) 0 1 =
      loop DEFAULT_SETTINGS bonjour_backend
        \<lparr>doc = [js ''Hello'', fence, js ''Bonjour'', fence, [], []], reads = [0],
         requests = [\<lparr>req_text = js ''Hello'', req_to = js ''en'', req_from = js ''auto''\<rparr>],
         notices = [], clipboard = []\<rparr> 5 5"
    by (rule loop_step [OF _ 1]) simp
  also have "\<dots> = loop DEFAULT_SETTINGS bonjour_backend
        \<lparr>doc = [js ''Hello'', fence, js ''Bonjour'', fence, [], []], reads = [0, 5],
         requests = [\<lparr>req_text = js ''Hello'', req_to = js ''en'', req_from = js ''auto''\<rparr>],
         notices = [], clipboard = []\<rparr> 6 5"
    by (rule loop_step [OF _ 2]) simp
  also have "\<dots> = Inr (\<lparr>doc = [js ''Hello'', fence, js ''Bonjour'', fence, [], []], reads = [0, 5],
         requests = [\<lparr>req_text = js ''Hello'', req_to = js ''en'', req_from = js ''auto''\<rparr>],
         notices = [], clipboard = []\<rparr>, 6, 5)"
    by (rule loop_done) simp
  finally show ?thesis .
qed

text \<open>
  C3, as stated: with the block type \<open>codeblock\<close>, when the loop processes the line
  \<open>Hello\<close> and the backend returns \<open>Bonjour\<close>, the next line the loop inspects is
  the one at the original index + 4.  On the document of the lines \<open>Hello\<close> and an
  empty line, with the range of both, the loop reads the lines 0 and 5, not 4.
\<close>

theorem hello_next_inspected_counterexample:
  "loop DEFAULT_SETTINGS bonjour_backend (start_world [js ''Hello'', []]) 0 1 =
     Inr (\<lparr>doc = [js ''Hello'', fence, js ''Bonjour'', fence, [], []], reads = [0, 5],
           requests = [\<lparr>req_text = js ''Hello'', req_to = js ''en'', req_from = js ''auto''\<rparr>],
           notices = [], clipboard = []\<rparr>, 6, 5) \<and>
   [0, 5] ! 1 \<noteq> (0::nat) + 4"
  using hello_run by simp

text \<open>
  C3, amended: with the block type \<open>codeblock\<close>, when the loop processes the line
  \<open>Hello\<close> at the index \<open>i\<close> and the backend returns \<open>Bonjour\<close>, the document has
  at that position the line \<open>Hello\<close>, the fenced block of \<open>Bonjour\<close> and an empty
  line, and the next index of the loop is \<open>i + 5\<close>: when the range goes on after
  \<open>i\<close>, the line the loop reads next is the one at \<open>i + 5\<close>.
\<close>

theorem hello_codeblock_step:
  assumes "blockType this = js ''codeblock''"
    and "i < length (doc w)" and "doc w ! i = js ''Hello''"
    and "be (length (requests w)) (translate_args this (js ''Hello'')) =
           Translated (js ''Bonjour'')"
  shows "iteration this be w i endLine =
     Inr (w\<lparr>doc := take i (doc w) @ [js ''Hello'', fence, js ''Bonjour'', fence, []] @
                    drop (Suc i) (doc w),
             reads := reads w @ [i],
             requests := requests w @ [translate_args this (js ''Hello'')]\<rparr>,
          i + 5, endLine + 4) \<and>
     (i < endLine \<and> endLine < length (doc w) \<longrightarrow>
        (\<exists>w' i' e' rest. loop this be w i endLine = Inr (w', i', e') \<and>
           reads w' = reads w @ i # (i + 5) # rest))"
proof -
  let ?w1 = "w\<lparr>doc := take i (doc w) @ [js ''Hello'', fence, js ''Bonjour'', fence, []] @
                    drop (Suc i) (doc w),
             reads := reads w @ [i],
             requests := requests w @ [translate_args this (js ''Hello'')]\<rparr>"
  have it: "iteration this be w i endLine = Inr (?w1, i + 5, endLine + 4)"
    using assms by (rule iteration_hello_codeblock)
  have "\<exists>w' i' e' rest. loop this be w i endLine = Inr (w', i', e') \<and>
           reads w' = reads w @ i # (i + 5) # rest"
    if "i < endLine" "endLine < length (doc w)"
  proof -
    have le: "i + 5 \<le> endLine + 4"
      using that by simp
    have ins: "i + 5 \<le> endLine + 4 \<longrightarrow> endLine + 4 < length (doc ?w1)"
      using that by simp
    from loop_total [OF refl ins, of this be]
    obtain w' i' e' ps where lp: "loop this be ?w1 (i + 5) (endLine + 4) = Inr (w', i', e')"
      and rd: "reads w' = reads ?w1 @ ps" and hd: "hd ps = i + 5"
      and len: "length ps = endLine + 4 + 1 - (i + 5)"
      using le by blast
    from len that have "ps \<noteq> []"
      by auto
    with hd obtain rest where ps: "ps = (i + 5) # rest"
      by (cases ps) auto
    have "loop this be w i endLine = Inr (w', i', e')"
      using that it lp by (simp add: loop.simps [of this be w i endLine])
    with rd ps show ?thesis
      by simp
  qed
  with it show ?thesis
    by blast
qed

theorem hello_codeblock_step_witness:
  "blockType DEFAULT_SETTINGS = js ''codeblock'' \<and>
   0 < length (doc (start_world [js ''Hello'', []])) \<and>
   doc (start_world [js ''Hello'', []]) ! 0 = js ''Hello'' \<and>
   bonjour_backend (length (requests (start_world [js ''Hello'', []])))
     (translate_args DEFAULT_SETTINGS (js ''Hello'')) = Translated (js ''Bonjour'') \<and>
   iteration DEFAULT_SETTINGS bonjour_backend (start_world [js ''Hello'', []]) 0 1 =
     Inr (\<lparr>doc = [js ''Hello'', fence, js ''Bonjour'', fence, [], []], reads = [0],
           requests = [\<lparr>req_text = js ''Hello'', req_to = js ''en'', req_from = js ''auto''\<rparr>],
           notices = [], clipboard = []\<rparr>, 5, 5) \<and>
   (\<exists>w' i' e' rest.
      loop DEFAULT_SETTINGS bonjour_backend (start_world [js ''Hello'', []]) 0 1 =
        Inr (w', i', e') \<and>
      reads w' = 0 # 5 # rest)"
proof -
  have 1: "blockType DEFAULT_SETTINGS = js ''codeblock''"
    by (simp add: DEFAULT_SETTINGS_def)
  have 2: "0 < length (doc (start_world [js ''Hello'', []]))"
    by (simp add: start_world_def)
  have 3: "doc (start_world [js ''Hello'', []]) ! 0 = js ''Hello''"
    by (simp add: start_world_def)
  have 4: "bonjour_backend (length (requests (start_world [js ''Hello'', []])))
     (translate_args DEFAULT_SETTINGS (js ''Hello'')) = Translated (js ''Bonjour'')"
    by (simp add: bonjour_backend_def)
  from hello_codeblock_step
        [of DEFAULT_SETTINGS 0 "start_world [js ''Hello'', []]" bonjour_backend 1] 1 2 3 4
  show ?thesis
    by (simp add: start_world_def translate_args_def DEFAULT_SETTINGS_def)
qed

section \<open>Every original line is translated once\<close>

lemma translateText_single_line:
  assumes "\<forall>n rq t. be n rq = Translated t \<longrightarrow> no_break t" and "no_break txt"
  shows "no_break (fst (translateText this be txt w))"
  using assms by (simp add: translateText_fst answer_def split: response.splits)

text \<open>
  The loop on the lines \<open>orig\<close> of a document \<open>pre @ orig @ post\<close>, when every
  translation is a single line: the middle of the document becomes the annotated lines
  and nothing else changes, the lines read are the lines of \<open>orig\<close>, the texts sent to
  the backend are those that are not blank, and \<open>endLine\<close> has advanced by
  \<open>getLinesAdded + 1\<close> for each of these.
\<close>

lemma loop_annotates:
  assumes single: "\<forall>n rq t. be n rq = Translated t \<longrightarrow> no_break t"
  shows "doc w = pre @ orig @ post \<Longrightarrow> \<forall>l\<in>set orig. no_break l \<Longrightarrow>
     i = length pre \<Longrightarrow> e + 1 = i + length orig \<Longrightarrow>
     \<exists>w' i' e' ps rs. loop this be w i e = Inr (w', i', e') \<and>
        doc w' = pre @ annotated this be (length (requests w)) orig @ post \<and>
        i' = e' + 1 \<and>
        e' = e + length (filter (\<lambda>l. \<not> blank l) orig) * (getLinesAdded this + 1) \<and>
        reads w' = reads w @ ps \<and> map ((!) (doc w')) ps = orig \<and>
        requests w' = requests w @ rs \<and> map req_text rs = filter (\<lambda>l. \<not> blank l) orig"
proof (induction orig arbitrary: w pre i e)
  case Nil
  then have "e < i" by simp
  then have "loop this be w i e = Inr (w, i, e)"
    by (rule loop_done)
  with Nil show ?case
    by (intro exI [of _ w] exI [of _ i] exI [of _ e] exI [of _ "[]"]) simp
next
  case (Cons l ls)
  have ins: "i < length (doc w)" and ln: "doc w ! i = l" and le: "i \<le> e"
    using Cons.prems by (simp_all add: nth_append)
  have tk: "take i (doc w) = pre" and dr: "drop (Suc i) (doc w) = ls @ post"
    using Cons.prems by simp_all
  have lnl: "no_break l" and lsnl: "\<forall>l\<in>set ls. no_break l"
    using Cons.prems(2) by simp_all
  show ?case
  proof (cases "blank l")
    case True
    let ?w1 = "w\<lparr>reads := reads w @ [i]\<rparr>"
    have it: "iteration this be w i e = Inr (?w1, i + 1, e)"
      using ins ln True by (simp add: iteration_blank)
    have d1: "doc ?w1 = (pre @ [l]) @ ls @ post"
      using Cons.prems(1) by simp
    have i1: "i + 1 = length (pre @ [l])" and e1: "e + 1 = (i + 1) + length ls"
      using Cons.prems(3,4) by simp_all
    from Cons.IH [OF d1 lsnl i1 e1]
    obtain w' i' e' ps rs where lp: "loop this be ?w1 (i + 1) e = Inr (w', i', e')"
      and dw: "doc w' = (pre @ [l]) @ annotated this be (length (requests ?w1)) ls @ post"
      and ie: "i' = e' + 1"
        "e' = e + length (filter (\<lambda>l. \<not> blank l) ls) * (getLinesAdded this + 1)"
      and rd: "reads w' = reads ?w1 @ ps" "map ((!) (doc w')) ps = ls"
      and rq: "requests w' = requests ?w1 @ rs" "map req_text rs = filter (\<lambda>l. \<not> blank l) ls"
      by blast
    have lp0: "loop this be w i e = Inr (w', i', e')"
      using loop_step [OF le it] lp by simp
    have at: "doc w' ! i = l"
      using dw Cons.prems(3) by (simp add: nth_append)
    show ?thesis
      using lp0 dw ie rd rq at True
      by (intro exI [of _ w'] exI [of _ i'] exI [of _ e'] exI [of _ "i # ps"] exI [of _ rs])
        simp
  next
    case False
    let ?tr = "translateText this be l (w\<lparr>reads := reads w @ [i]\<rparr>)"
    let ?block = "split_nl (formatTranslation this (fst ?tr))"
    let ?w1 = "(snd ?tr)\<lparr>doc := pre @ (l # ?block @ [[]]) @ ls @ post\<rparr>"
    have an: "fst ?tr = answer this be (length (requests w)) l"
      by (simp add: translateText_fst)
    have tnl: "no_break (fst ?tr)"
      using single lnl by (rule translateText_single_line)
    have bl: "length ?block = getLinesAdded this"
      using tnl by (simp add: length_format_lines no_break_def)
    have sp: "split_lines (l @ [LF] @ formatTranslation this (fst ?tr) @ [LF]) = l # ?block @ [[]]"
      using lnl format_no_CR [OF tnl] by (rule split_lines_replacement)
    have it: "iteration this be w i e =
        Inr (?w1, i + (getLinesAdded this + 2), e + (getLinesAdded this + 1))"
      using iteration_nonblank [OF ins, of this be e] False ln sp tk dr by simp
    have d1: "doc ?w1 = (pre @ l # ?block @ [[]]) @ ls @ post"
      by simp
    have i1: "i + (getLinesAdded this + 2) = length (pre @ l # ?block @ [[]])"
      using Cons.prems(3) bl by simp
    have e1: "e + (getLinesAdded this + 1) + 1 = (i + (getLinesAdded this + 2)) + length ls"
      using Cons.prems(4) by simp
    have rd1: "reads ?w1 = reads w @ [i]"
      by (simp add: translateText_reads)
    have rq1: "requests ?w1 = requests w @ [translate_args this l]"
      by (simp add: translateText_requests)
    from Cons.IH [OF d1 lsnl i1 e1]
    obtain w' i' e' ps rs
      where lp: "loop this be ?w1 (i + (getLinesAdded this + 2)) (e + (getLinesAdded this + 1)) =
          Inr (w', i', e')"
      and dw: "doc w' = (pre @ l # ?block @ [[]]) @
                 annotated this be (length (requests ?w1)) ls @ post"
      and ie: "i' = e' + 1"
        "e' = e + (getLinesAdded this + 1) +
           length (filter (\<lambda>l. \<not> blank l) ls) * (getLinesAdded this + 1)"
      and rd: "reads w' = reads ?w1 @ ps" "map ((!) (doc w')) ps = ls"
      and rq: "requests w' = requests ?w1 @ rs" "map req_text rs = filter (\<lambda>l. \<not> blank l) ls"
      by blast
    have lp0: "loop this be w i e = Inr (w', i', e')"
      using loop_step [OF le it] lp by simp
    have at: "doc w' ! i = l"
      using dw Cons.prems(3) by (simp add: nth_append)
    have dw0: "doc w' = pre @ annotated this be (length (requests w)) (l # ls) @ post"
      using dw False an by (simp add: translateText_requests)
    have rt: "req_text (translate_args this l) = l"
      by (simp add: translate_args_def)
    show ?thesis
      using lp0 dw0 ie rd rq at False rd1 rq1 rt
      by (intro exI [of _ w'] exI [of _ i'] exI [of _ e'] exI [of _ "i # ps"]
            exI [of _ "translate_args this l # rs"]) simp
  qed
qed

text \<open>The decomposition of a document around a range of its lines.\<close>

lemma range_decomposition:
  assumes "s \<le> e" and "e < length d"
  shows "d = take s d @ take (e + 1 - s) (drop s d) @ drop (e + 1) d"
    and "s = length (take s d)"
    and "e + 1 = s + length (take (e + 1 - s) (drop s d))"
proof -
  have "drop (e + 1 - s) (drop s d) = drop (e + 1) d"
    using assms by simp
  then have "drop s d = take (e + 1 - s) (drop s d) @ drop (e + 1) d"
    by (metis append_take_drop_id)
  then show "d = take s d @ take (e + 1 - s) (drop s d) @ drop (e + 1) d"
    by (metis append_take_drop_id)
  show "s = length (take s d)" and "e + 1 = s + length (take (e + 1 - s) (drop s d))"
    using assms by simp_all
qed

text \<open>One iteration on a line that is not blank, when the translation is a single line.\<close>

lemma iteration_single_line:
  assumes single: "\<forall>n rq t. be n rq = Translated t \<longrightarrow> no_break t"
    and ins: "i < length (doc w)" and nb: "\<not> blank (doc w ! i)" and nl: "no_break (doc w ! i)"
  shows "iteration this be w i e =
      Inr ((snd (translateText this be (doc w ! i) (w\<lparr>reads := reads w @ [i]\<rparr>)))
             \<lparr>doc := take i (doc w) @
                 (doc w ! i #
                  split_nl (formatTranslation this
                    (fst (translateText this be (doc w ! i) (w\<lparr>reads := reads w @ [i]\<rparr>)))) @
                  [[]]) @
                 drop (Suc i) (doc w)\<rparr>,
           i + (getLinesAdded this + 2), e + (getLinesAdded this + 1))"
    and "length (split_nl (formatTranslation this
            (fst (translateText this be (doc w ! i) (w\<lparr>reads := reads w @ [i]\<rparr>))))) =
         getLinesAdded this"
proof -
  let ?tr = "translateText this be (doc w ! i) (w\<lparr>reads := reads w @ [i]\<rparr>)"
  have tnl: "no_break (fst ?tr)"
    using single nl by (rule translateText_single_line)
  show "length (split_nl (formatTranslation this (fst ?tr))) = getLinesAdded this"
    using tnl by (simp add: length_format_lines no_break_def)
  have sp: "split_lines (doc w ! i @ [LF] @ formatTranslation this (fst ?tr) @ [LF]) =
      doc w ! i # split_nl (formatTranslation this (fst ?tr)) @ [[]]"
    using nl format_no_CR [OF tnl] by (rule split_lines_replacement)
  show "iteration this be w i e =
      Inr ((snd ?tr)\<lparr>doc := take i (doc w) @
                 (doc w ! i # split_nl (formatTranslation this (fst ?tr)) @ [[]]) @
                 drop (Suc i) (doc w)\<rparr>,
           i + (getLinesAdded this + 2), e + (getLinesAdded this + 1))"
    using iteration_nonblank [OF ins nb, of this be e] sp by simp
qed

text \<open>
  C4: for a selection whose lines are in the document, when every answer of the backend
  is a single line (it has no line break), the command sends to the backend exactly the
  original lines of the range that are not blank, in order, each once: \<open>N\<close> calls for
  \<open>N\<close> such lines.  The lines it reads are exactly the original lines of the range, so
  no inserted line is read again and no original line is skipped, and the document
  changes only inside the range.  After a line \<open>i\<close> is processed, the next index is the
  first after the lines inserted (the block and the empty line after it): the document
  from there on is the old document after line \<open>i\<close>.
\<close>

theorem original_lines_translated_once:
  assumes single: "\<forall>n rq t. be n rq = Translated t \<longrightarrow> no_break t"
    and wf: "\<forall>l\<in>set (doc w). no_break l"
    and sel: "sel_text sel \<noteq> []"
    and range: "line (sel_from sel) \<le> line (sel_to sel)" "line (sel_to sel) < length (doc w)"
    and ins: "i < length (doc w0)" and nb: "\<not> blank (doc w0 ! i)"
    and nl: "no_break (doc w0 ! i)"
  shows
    "(\<exists>w' mid ps rs.
        inline_translate_line this be sel w = Inr w' \<and>
        doc w' = take (line (sel_from sel)) (doc w) @ mid @ drop (line (sel_to sel) + 1) (doc w) \<and>
        reads w' = reads w @ ps \<and>
        map ((!) (doc w')) ps =
          take (line (sel_to sel) + 1 - line (sel_from sel)) (drop (line (sel_from sel)) (doc w)) \<and>
        requests w' = requests w @ rs \<and>
        map req_text rs =
          filter (\<lambda>l. \<not> blank l)
            (take (line (sel_to sel) + 1 - line (sel_from sel))
               (drop (line (sel_from sel)) (doc w))) \<and>
        length rs =
          length (filter (\<lambda>l. \<not> blank l)
            (take (line (sel_to sel) + 1 - line (sel_from sel))
               (drop (line (sel_from sel)) (doc w))))) \<and>
     (\<exists>w' i' e'.
        iteration this be w0 i e = Inr (w', i', e') \<and>
        take (Suc i) (doc w') = take (Suc i) (doc w0) \<and>
        drop i' (doc w') = drop (Suc i) (doc w0) \<and>
        i' = Suc i + (length (doc w') - length (doc w0)))"
proof -
  let ?s = "line (sel_from sel)" and ?e = "line (sel_to sel)"
  let ?orig = "take (?e + 1 - ?s) (drop ?s (doc w))"
  note dec = range_decomposition [OF range]
  have onl: "\<forall>l\<in>set ?orig. no_break l"
    using wf by (meson in_set_dropD in_set_takeD)
  have "\<exists>w' i' e' ps rs. loop this be w ?s ?e = Inr (w', i', e') \<and>
        doc w' = take ?s (doc w) @ annotated this be (length (requests w)) ?orig @
                 drop (?e + 1) (doc w) \<and>
        i' = e' + 1 \<and>
        e' = ?e + length (filter (\<lambda>l. \<not> blank l) ?orig) * (getLinesAdded this + 1) \<and>
        reads w' = reads w @ ps \<and> map ((!) (doc w')) ps = ?orig \<and>
        requests w' = requests w @ rs \<and>
        map req_text rs = filter (\<lambda>l. \<not> blank l) ?orig"
    by (rule loop_annotates [OF single dec(1) onl dec(2) dec(3)])
  then obtain w' i' e' ps rs where lp: "loop this be w ?s ?e = Inr (w', i', e')"
    and dw: "doc w' = take ?s (doc w) @ annotated this be (length (requests w)) ?orig @
                 drop (?e + 1) (doc w)"
    and rd: "reads w' = reads w @ ps" "map ((!) (doc w')) ps = ?orig"
    and rq: "requests w' = requests w @ rs" "map req_text rs = filter (\<lambda>l. \<not> blank l) ?orig"
    by blast
  have cmd: "inline_translate_line this be sel w = Inr w'"
    using sel lp by (simp add: inline_translate_line_def)
  have len: "length rs = length (filter (\<lambda>l. \<not> blank l) ?orig)"
    using rq(2) by (metis length_map)
  have a: "\<exists>w' mid ps rs.
        inline_translate_line this be sel w = Inr w' \<and>
        doc w' = take ?s (doc w) @ mid @ drop (?e + 1) (doc w) \<and>
        reads w' = reads w @ ps \<and> map ((!) (doc w')) ps = ?orig \<and>
        requests w' = requests w @ rs \<and>
        map req_text rs = filter (\<lambda>l. \<not> blank l) ?orig \<and>
        length rs = length (filter (\<lambda>l. \<not> blank l) ?orig)"
    using cmd dw rd rq len by blast
  note it = iteration_single_line [OF single ins nb nl]
  have b: "\<exists>w' i' e'.
        iteration this be w0 i e = Inr (w', i', e') \<and>
        take (Suc i) (doc w') = take (Suc i) (doc w0) \<and>
        drop i' (doc w') = drop (Suc i) (doc w0) \<and>
        i' = Suc i + (length (doc w') - length (doc w0))"
    using ins it(2) by (simp add: it(1) take_Suc_conv_app_nth min_def)
  from a b show ?thesis
    by blast
qed

theorem original_lines_translated_once_witness:
  "sel_text hello_selection \<noteq> [] \<and>
   line (sel_from hello_selection) \<le> line (sel_to hello_selection) \<and>
   line (sel_to hello_selection) < length (doc (start_world [js ''Hello'', []])) \<and>
   0 < length (doc (start_world [js ''Hello'', []])) \<and>
   \<not> blank (doc (start_world [js ''Hello'', []]) ! 0) \<and>
   no_break (doc (start_world [js ''Hello'', []]) ! 0) \<and>
   inline_translate_line DEFAULT_SETTINGS bonjour_backend hello_selection
       (start_world [js ''Hello'', []]) =
     Inr \<lparr>doc = [js ''Hello'', fence, js ''Bonjour'', fence, [], []], reads = [0, 5],
          requests = [\<lparr>req_text = js ''Hello'', req_to = js ''en'', req_from = js ''auto''\<rparr>],
          notices = [], clipboard = []\<rparr> \<and>
   (\<exists>w' mid ps rs.
      inline_translate_line DEFAULT_SETTINGS bonjour_backend hello_selection
          (start_world [js ''Hello'', []]) = Inr w' \<and>
      doc w' =
        take (line (sel_from hello_selection)) (doc (start_world [js ''Hello'', []])) @ mid @
        drop (line (sel_to hello_selection) + 1) (doc (start_world [js ''Hello'', []])) \<and>
      reads w' = reads (start_world [js ''Hello'', []]) @ ps \<and>
      map ((!) (doc w')) ps =
        take (line (sel_to hello_selection) + 1 - line (sel_from hello_selection))
          (drop (line (sel_from hello_selection)) (doc (start_world [js ''Hello'', []]))) \<and>
      requests w' = requests (start_world [js ''Hello'', []]) @ rs \<and>
      map req_text rs =
        filter (\<lambda>l. \<not> blank l)
          (take (line (sel_to hello_selection) + 1 - line (sel_from hello_selection))
             (drop (line (sel_from hello_selection)) (doc (start_world [js ''Hello'', []])))) \<and>
      length rs =
        length (filter (\<lambda>l. \<not> blank l)
          (take (line (sel_to hello_selection) + 1 - line (sel_from hello_selection))
             (drop (line (sel_from hello_selection))
                (doc (start_world [js ''Hello'', []])))))) \<and>
   (\<exists>w' i' e'.
      iteration DEFAULT_SETTINGS bonjour_backend (start_world [js ''Hello'', []]) 0 1 =
        Inr (w', i', e') \<and>
      take (Suc 0) (doc w') = take (Suc 0) (doc (start_world [js ''Hello'', []])) \<and>
      drop i' (doc w') = drop (Suc 0) (doc (start_world [js ''Hello'', []])) \<and>
      i' = Suc 0 + (length (doc w') - length (doc (start_world [js ''Hello'', []]))))"
proof -
  have single: "\<forall>n rq t. bonjour_backend n rq = Translated t \<longrightarrow> no_break t"
    by (simp add: bonjour_backend_def no_break_def js_def)
  have wf: "\<forall>l\<in>set (doc (start_world [js ''Hello'', []])). no_break l"
    by (simp add: start_world_def no_break_def js_def)
  have 1: "sel_text hello_selection \<noteq> []"
    by (simp add: hello_selection_def)
  have 2: "line (sel_from hello_selection) \<le> line (sel_to hello_selection)"
    by (simp add: hello_selection_def)
  have 3: "line (sel_to hello_selection) < length (doc (start_world [js ''Hello'', []]))"
    by (simp add: hello_selection_def start_world_def)
  have 4: "0 < length (doc (start_world [js ''Hello'', []]))"
    by (simp add: start_world_def)
  have 5: "\<not> blank (doc (start_world [js ''Hello'', []]) ! 0)"
    by (simp add: start_world_def blank_def isWhiteSpace_def js_def)
  have 6: "no_break (doc (start_world [js ''Hello'', []]) ! 0)"
    by (simp add: start_world_def no_break_def js_def)
  have cmd: "inline_translate_line DEFAULT_SETTINGS bonjour_backend hello_selection
       (start_world [js ''Hello'', []]) =
     Inr \<lparr>doc = [js ''Hello'', fence, js ''Bonjour'', fence, [], []], reads = [0, 5],
          requests = [\<lparr>req_text = js ''Hello'', req_to = js ''en'', req_from = js ''auto''\<rparr>],
          notices = [], clipboard = []\<rparr>"
    using hello_run by (simp add: inline_translate_line_def hello_selection_def)
  from original_lines_translated_once
         [where this = DEFAULT_SETTINGS and e = 1, OF single wf 1 2 3 4 5 6]
       1 2 3 4 5 6 cmd
  show ?thesis
    by blast
qed

section \<open>Every line of the range that is not blank is annotated\<close>

lemma two_line_run:
  "loop DEFAULT_SETTINGS two_line_backend (start_world [js ''Hello'', js ''World'']) 0 1 =
     Inr (\<lparr>doc = [js ''Hello'', fence, js ''a'', js ''b'', fence, [], js ''World''],
           reads = [0, 5],
           requests = [\<lparr>req_text = js ''Hello'', req_to = js ''en'', req_from = js ''auto''\<rparr>],
           notices = [], clipboard = []\<rparr>, 6, 5)"
proof -
  let ?w1 = "\<lparr>doc = [js ''Hello'', fence, js ''a'', js ''b'', fence, [], js ''World''],
              reads = [0],
              requests = [\<lparr>req_text = js ''Hello'', req_to = js ''en'', req_from = js ''auto''\<rparr>],
              notices = [], clipboard = []\<rparr>"
  have ins: "0 < length (doc (start_world [js ''Hello'', js ''World'']))"
    by (simp add: start_world_def)
  have nb: "\<not> blank (doc (start_world [js ''Hello'', js ''World'']) ! 0)"
    by (simp add: start_world_def blank_def isWhiteSpace_def js_def)
  have tr: "translateText DEFAULT_SETTINGS two_line_backend (js ''Hello'')
      \<lparr>doc = [js ''Hello'', js ''World''], reads = [0], requests = [], notices = [],
       clipboard = []\<rparr> =
    (js ''a'' @ [LF] @ js ''b'',
      \<lparr>doc = [js ''Hello'', js ''World''], reads = [0],
       requests = [\<lparr>req_text = js ''Hello'', req_to = js ''en'', req_from = js ''auto''\<rparr>],
       notices = [], clipboard = []\<rparr>)"
    by (simp add: translateText_def translate_args_def two_line_backend_def DEFAULT_SETTINGS_def)
  have cr: "CR \<notin> set (js ''Hello'' @ [LF] @
      formatTranslation DEFAULT_SETTINGS (js ''a'' @ [LF] @ js ''b'') @ [LF])"
    by (simp add: formatTranslation_def DEFAULT_SETTINGS_def fence_def js_def)
  have "split_nl (js ''Hello'' @ [LF] @
      formatTranslation DEFAULT_SETTINGS (js ''a'' @ [LF] @ js ''b'') @ [LF]) =
    [js ''Hello'', fence, js ''a'', js ''b'', fence, []]"
    by (simp add: formatTranslation_def DEFAULT_SETTINGS_def fence_def js_def split_nl_Cons)
  with split_lines_no_CR [OF cr]
  have sp: "split_lines (js ''Hello'' @ [LF] @
      formatTranslation DEFAULT_SETTINGS (js ''a'' @ [LF] @ js ''b'') @ [LF]) =
    [js ''Hello'', fence, js ''a'', js ''b'', fence, []]"
    by simp
  have gl: "getLinesAdded DEFAULT_SETTINGS = 3"
    by (simp add: getLinesAdded_def DEFAULT_SETTINGS_def)
  have 1: "iteration DEFAULT_SETTINGS two_line_backend
      (start_world [js ''Hello'', js ''World'']) 0 1 = Inr (?w1, 5, 5)"
    using iteration_nonblank [OF ins nb, of DEFAULT_SETTINGS two_line_backend 1] sp
    by (simp add: start_world_def tr gl)
  have 2: "iteration DEFAULT_SETTINGS two_line_backend ?w1 5 5 =
      Inr (?w1\<lparr>reads := [0, 5]\<rparr>, 6, 5)"
    by (simp add: iteration_blank blank_def)
  have "loop DEFAULT_SETTINGS two_line_backend (start_world [js ''Hello'', js ''World'']) 0 1 =
      loop DEFAULT_SETTINGS two_line_backend ?w1 5 5"
    by (rule loop_step [OF _ 1]) simp
  also have "\<dots> = loop DEFAULT_SETTINGS two_line_backend (?w1\<lparr>reads := [0, 5]\<rparr>) 6 5"
    by (rule loop_step [OF _ 2]) simp
  also have "\<dots> = Inr (?w1\<lparr>reads := [0, 5]\<rparr>, 6, 5)"
    by (rule loop_done) simp
  finally show ?thesis
    by simp
qed

text \<open>
  C1, as stated: the command annotates every line of the range that is not all white
  space.  It fails when an answer of the backend has two lines: on the document of the
  lines \<open>Hello\<close> and \<open>World\<close>, with the selection from line 0 to line 1, the block after
  \<open>Hello\<close> has one line more than \<open>getLinesAdded\<close> counts, the loop ends on the empty
  line after the block, and \<open>World\<close>, a line of the range that is not blank, is never
  read, translated or replaced.
\<close>

theorem world_not_annotated_counterexample:
  "inline_translate_line DEFAULT_SETTINGS two_line_backend hello_selection
       (start_world [js ''Hello'', js ''World'']) =
     Inr \<lparr>doc = [js ''Hello'', fence, js ''a'', js ''b'', fence, [], js ''World''],
          reads = [0, 5],
          requests = [\<lparr>req_text = js ''Hello'', req_to = js ''en'', req_from = js ''auto''\<rparr>],
          notices = [], clipboard = []\<rparr> \<and>
   line (sel_from hello_selection) \<le> 1 \<and> 1 \<le> line (sel_to hello_selection) \<and>
   start_world [js ''Hello'', js ''World''] = 
     \<lparr>doc = [js ''Hello'', js ''World''], reads = [], requests = [], notices = [],
      clipboard = []\<rparr> \<and>
   \<not> blank (js ''World'')"
  using two_line_run
  by (simp add: inline_translate_line_def hello_selection_def start_world_def blank_def
        isWhiteSpace_def js_def)

text \<open>
  C1, amended: when every answer of the backend is a single line (it has no line
  break), the command annotates every original line of the range that is not all white
  space: it ends normally, and in the document the range has become the annotated
  lines, where each such line is kept and is followed by the lines of its formatted
  translation and one empty line, and a blank line is as it was.  For each such line the
  body of the loop replaces the whole character range of the line by the line, a
  newline, the formatted block and a newline, and leaves with \<open>i\<close> and \<open>endLine\<close> both
  advanced by \<open>getLinesAdded + 1\<close>; at the end of the loop \<open>endLine\<close> has advanced by
  \<open>getLinesAdded + 1\<close> for each of these lines, and \<open>i\<close> is one more.
\<close>

theorem nonblank_lines_annotated:
  assumes single: "\<forall>n rq t. be n rq = Translated t \<longrightarrow> no_break t"
    and wf: "\<forall>l\<in>set (doc w). no_break l"
    and rng: "(startLine, endLine) =
       (if sel_text sel \<noteq> [] then (line (sel_from sel), line (sel_to sel))
        else (line (sel_head sel), line (sel_head sel)))"
    and inside: "startLine \<le> endLine" "endLine < length (doc w)"
    and ins: "i < length (doc w0)" and nb: "\<not> blank (doc w0 ! i)"
    and nl: "no_break (doc w0 ! i)"
  shows
    "(\<exists>w' i' e'.
        loop this be w startLine endLine = Inr (w', i', e') \<and>
        inline_translate_line this be sel w = Inr w' \<and>
        doc w' =
          take startLine (doc w) @
          annotated this be (length (requests w))
            (take (endLine + 1 - startLine) (drop startLine (doc w))) @
          drop (endLine + 1) (doc w) \<and>
        e' = endLine +
             length (filter (\<lambda>l. \<not> blank l)
               (take (endLine + 1 - startLine) (drop startLine (doc w)))) *
             (getLinesAdded this + 1) \<and>
        i' = e' + 1) \<and>
     (let ln = doc w0 ! i;
          (translatedText, w2) = translateText this be ln (w0\<lparr>reads := reads w0 @ [i]\<rparr>);
          formattedTranslation = formatTranslation this translatedText;
          w3 = w2\<lparr>doc := take i (doc w0) @ [ln] @ split_nl formattedTranslation @ [[]] @
                          drop (Suc i) (doc w0)\<rparr>
      in replaceRange (ln @ [LF] @ formattedTranslation @ [LF])
           \<lparr>line = i, ch = 0\<rparr> \<lparr>line = i, ch = length ln\<rparr> w2 = Inr w3 \<and>
         body this be w0 i e =
           Inr (w3, i + (getLinesAdded this + 1), e + (getLinesAdded this + 1)))"
proof -
  let ?orig = "take (endLine + 1 - startLine) (drop startLine (doc w))"
  note dec = range_decomposition [OF inside]
  have onl: "\<forall>l\<in>set ?orig. no_break l"
    using wf by (meson in_set_dropD in_set_takeD)
  have "\<exists>w' i' e' ps rs. loop this be w startLine endLine = Inr (w', i', e') \<and>
        doc w' = take startLine (doc w) @ annotated this be (length (requests w)) ?orig @
                 drop (endLine + 1) (doc w) \<and>
        i' = e' + 1 \<and>
        e' = endLine + length (filter (\<lambda>l. \<not> blank l) ?orig) * (getLinesAdded this + 1) \<and>
        reads w' = reads w @ ps \<and> map ((!) (doc w')) ps = ?orig \<and>
        requests w' = requests w @ rs \<and>
        map req_text rs = filter (\<lambda>l. \<not> blank l) ?orig"
    by (rule loop_annotates [OF single dec(1) onl dec(2) dec(3)])
  then obtain w' i' e' where lp: "loop this be w startLine endLine = Inr (w', i', e')"
    and dw: "doc w' = take startLine (doc w) @
                 annotated this be (length (requests w)) ?orig @ drop (endLine + 1) (doc w)"
    and ie: "i' = e' + 1"
      "e' = endLine + length (filter (\<lambda>l. \<not> blank l) ?orig) * (getLinesAdded this + 1)"
    by blast
  have "inline_translate_line this be sel w =
      (case loop this be w startLine endLine of
         Inl e \<Rightarrow> Inl e | Inr (w', i', endLine') \<Rightarrow> Inr w')"
    unfolding inline_translate_line_def rng [symmetric] by simp
  with lp have cmd: "inline_translate_line this be sel w = Inr w'"
    by simp
  have a: "\<exists>w' i' e'.
        loop this be w startLine endLine = Inr (w', i', e') \<and>
        inline_translate_line this be sel w = Inr w' \<and>
        doc w' = take startLine (doc w) @ annotated this be (length (requests w)) ?orig @
                 drop (endLine + 1) (doc w) \<and>
        e' = endLine + length (filter (\<lambda>l. \<not> blank l) ?orig) * (getLinesAdded this + 1) \<and>
        i' = e' + 1"
    using lp cmd dw ie by blast
  obtain t w2 where tr: "translateText this be (doc w0 ! i) (w0\<lparr>reads := reads w0 @ [i]\<rparr>) = (t, w2)"
    by (cases "translateText this be (doc w0 ! i) (w0\<lparr>reads := reads w0 @ [i]\<rparr>)")
  have d: "doc w2 = doc w0"
    using translateText_doc [of this be "doc w0 ! i" "w0\<lparr>reads := reads w0 @ [i]\<rparr>"] tr
    by simp
  have tnl: "no_break t"
    using translateText_single_line [OF single nl, of this "w0\<lparr>reads := reads w0 @ [i]\<rparr>"] tr
    by simp
  have sp: "split_lines (doc w0 ! i @ [LF] @ formatTranslation this t @ [LF]) =
      doc w0 ! i # split_nl (formatTranslation this t) @ [[]]"
    using nl format_no_CR [OF tnl] by (rule split_lines_replacement)
  have rp: "replaceRange (doc w0 ! i @ [LF] @ formatTranslation this t @ [LF])
      \<lparr>line = i, ch = 0\<rparr> \<lparr>line = i, ch = length (doc w0 ! i)\<rparr> w2 =
    Inr (w2\<lparr>doc := take i (doc w0) @ [doc w0 ! i] @ split_nl (formatTranslation this t) @ [[]] @
                     drop (Suc i) (doc w0)\<rparr>)"
    using ins sp by (simp add: replaceRange_def d)
  have "body this be w0 i e =
      Inr (w2\<lparr>doc := take i (doc w0) @ [doc w0 ! i] @ split_nl (formatTranslation this t) @ [[]] @
                     drop (Suc i) (doc w0)\<rparr>,
           i + (getLinesAdded this + 1), e + (getLinesAdded this + 1))"
    using ins nb rp by (simp add: body_def getLine_def tr)
  with rp have b: "let ln = doc w0 ! i;
          (translatedText, w2) = translateText this be ln (w0\<lparr>reads := reads w0 @ [i]\<rparr>);
          formattedTranslation = formatTranslation this translatedText;
          w3 = w2\<lparr>doc := take i (doc w0) @ [ln] @ split_nl formattedTranslation @ [[]] @
                          drop (Suc i) (doc w0)\<rparr>
      in replaceRange (ln @ [LF] @ formattedTranslation @ [LF])
           \<lparr>line = i, ch = 0\<rparr> \<lparr>line = i, ch = length ln\<rparr> w2 = Inr w3 \<and>
         body this be w0 i e =
           Inr (w3, i + (getLinesAdded this + 1), e + (getLinesAdded this + 1))"
    by (simp add: tr)
  from a b show ?thesis
    by blast
qed

theorem nonblank_lines_annotated_witness:
  "(0, 1) =
     (if sel_text hello_selection \<noteq> []
      then (line (sel_from hello_selection), line (sel_to hello_selection))
      else (line (sel_head hello_selection), line (sel_head hello_selection))) \<and>
   (0::nat) \<le> 1 \<and> 1 < length (doc (start_world [js ''Hello'', []])) \<and>
   0 < length (doc (start_world [js ''Hello'', []])) \<and> \<not> blank (doc (start_world [js ''Hello'', []]) ! 0) \<and> no_break (doc (start_world [js ''Hello'', []]) ! 0) \<and>
   annotated DEFAULT_SETTINGS bonjour_backend 0 [js ''Hello'', []] =
     [js ''Hello'', fence, js ''Bonjour'', fence, [], []] \<and>
   inline_translate_line DEFAULT_SETTINGS bonjour_backend hello_selection (start_world [js ''Hello'', []]) =
     Inr \<lparr>doc = [js ''Hello'', fence, js ''Bonjour'', fence, [], []], reads = [0, 5],
          requests = [\<lparr>req_text = js ''Hello'', req_to = js ''en'', req_from = js ''auto''\<rparr>],
          notices = [], clipboard = []\<rparr> \<and>
   (\<exists>w' i' e'.
      loop DEFAULT_SETTINGS bonjour_backend (start_world [js ''Hello'', []]) 0 1 = Inr (w', i', e') \<and>
      inline_translate_line DEFAULT_SETTINGS bonjour_backend hello_selection (start_world [js ''Hello'', []]) = Inr w' \<and>
      doc w' =
        take 0 (doc (start_world [js ''Hello'', []])) @
        annotated DEFAULT_SETTINGS bonjour_backend (length (requests (start_world [js ''Hello'', []])))
          (take (1 + 1 - 0) (drop 0 (doc (start_world [js ''Hello'', []])))) @
        drop (1 + 1) (doc (start_world [js ''Hello'', []])) \<and>
      e' = 1 +
           length (filter (\<lambda>l. \<not> blank l) (take (1 + 1 - 0) (drop 0 (doc (start_world [js ''Hello'', []]))))) *
           (getLinesAdded DEFAULT_SETTINGS + 1) \<and>
      i' = e' + 1) \<and>
   (let ln = doc (start_world [js ''Hello'', []]) ! 0;
        (translatedText, w2) =
          translateText DEFAULT_SETTINGS bonjour_backend ln
            ((start_world [js ''Hello'', []])\<lparr>reads := reads (start_world [js ''Hello'', []]) @ [0]\<rparr>);
        formattedTranslation = formatTranslation DEFAULT_SETTINGS translatedText;
        w3 = w2\<lparr>doc := take 0 (doc (start_world [js ''Hello'', []])) @ [ln] @ split_nl formattedTranslation @ [[]] @
                        drop (Suc 0) (doc (start_world [js ''Hello'', []]))\<rparr>
    in replaceRange (ln @ [LF] @ formattedTranslation @ [LF])
         \<lparr>line = 0, ch = 0\<rparr> \<lparr>line = 0, ch = length ln\<rparr> w2 = Inr w3 \<and>
       body DEFAULT_SETTINGS bonjour_backend (start_world [js ''Hello'', []]) 0 1 =
         Inr (w3, 0 + (getLinesAdded DEFAULT_SETTINGS + 1),
              1 + (getLinesAdded DEFAULT_SETTINGS + 1)))"
proof -
  have single: "\<forall>n rq t. bonjour_backend n rq = Translated t \<longrightarrow> no_break t"
    by (simp add: bonjour_backend_def no_break_def js_def)
  have wf: "\<forall>l\<in>set (doc (start_world [js ''Hello'', []])). no_break l"
    by (simp add: start_world_def no_break_def js_def)
  have 1: "(0, 1) =
     (if sel_text hello_selection \<noteq> []
      then (line (sel_from hello_selection), line (sel_to hello_selection))
      else (line (sel_head hello_selection), line (sel_head hello_selection)))"
    by (simp add: hello_selection_def)
  have 2: "(0::nat) \<le> 1"
    by simp
  have 3: "1 < length (doc (start_world [js ''Hello'', []]))"
    by (simp add: start_world_def)
  have 4: "0 < length (doc (start_world [js ''Hello'', []]))"
    by (simp add: start_world_def)
  have 5: "\<not> blank (doc (start_world [js ''Hello'', []]) ! 0)"
    by (simp add: start_world_def blank_def isWhiteSpace_def js_def)
  have 6: "no_break (doc (start_world [js ''Hello'', []]) ! 0)"
    by (simp add: start_world_def no_break_def js_def)
  have b: "LF \<notin> set (js ''Bonjour'')"
    by (simp add: js_def)
  have fm: "split_nl (formatTranslation DEFAULT_SETTINGS (js ''Bonjour'')) =
      [fence, js ''Bonjour'', fence]"
    using b
    by (simp add: formatTranslation_def DEFAULT_SETTINGS_def split_nl_append_LF_gen
          split_nl_no_LF fence_no_LF)
  have an: "annotated DEFAULT_SETTINGS bonjour_backend 0 [js ''Hello'', []] =
     [js ''Hello'', fence, js ''Bonjour'', fence, [], []]"
    using 5 by (simp add: start_world_def answer_def bonjour_backend_def fm blank_def)
  have cmd: "inline_translate_line DEFAULT_SETTINGS bonjour_backend hello_selection (start_world [js ''Hello'', []]) =
     Inr \<lparr>doc = [js ''Hello'', fence, js ''Bonjour'', fence, [], []], reads = [0, 5],
          requests = [\<lparr>req_text = js ''Hello'', req_to = js ''en'', req_from = js ''auto''\<rparr>],
          notices = [], clipboard = []\<rparr>"
    using hello_run by (simp add: inline_translate_line_def hello_selection_def)
  from nonblank_lines_annotated
         [where this = DEFAULT_SETTINGS and e = 1, OF single wf 1 2 3 4 5 6]
       1 2 3 4 5 6 an cmd
  show ?thesis
    by blast
qed

section \<open>Quick translation without a selection\<close>

text \<open>
  C9: when \<open>translate-to-notice\<close> runs with no selection, the notice
  \<open>No text selected for translation.\<close> is shown and nothing else happens: nothing is
  written to the clipboard, no request goes to the backend, the document is as before.
\<close>

theorem no_selection_notice:
  assumes "sel_text sel = []"
  shows "translate_to_notice this be sel w =
           w\<lparr>notices := notices w @ [js ''No text selected for translation.'']\<rparr> \<and>
         clipboard (translate_to_notice this be sel w) = clipboard w \<and>
         requests (translate_to_notice this be sel w) = requests w \<and>
         doc (translate_to_notice this be sel w) = doc w"
  using assms by (simp add: translate_to_notice_def)

theorem no_selection_notice_witness:
  "sel_text \<lparr>sel_text = [], sel_from = \<lparr>line = 0, ch = 2\<rparr>, sel_to = \<lparr>line = 0, ch = 2\<rparr>,
             sel_head = \<lparr>line = 0, ch = 2\<rparr>\<rparr> = [] \<and>
   translate_to_notice DEFAULT_SETTINGS bonjour_backend
       \<lparr>sel_text = [], sel_from = \<lparr>line = 0, ch = 2\<rparr>, sel_to = \<lparr>line = 0, ch = 2\<rparr>,
        sel_head = \<lparr>line = 0, ch = 2\<rparr>\<rparr> (start_world [js ''Hello'']) =
     \<lparr>doc = [js ''Hello''], reads = [], requests = [],
      notices = [js ''No text selected for translation.''], clipboard = []\<rparr>"
  using no_selection_notice
      [of "\<lparr>sel_text = [], sel_from = \<lparr>line = 0, ch = 2\<rparr>, sel_to = \<lparr>line = 0, ch = 2\<rparr>,
             sel_head = \<lparr>line = 0, ch = 2\<rparr>\<rparr>"
          DEFAULT_SETTINGS bonjour_backend "start_world [js ''Hello'']"]
  by (simp add: start_world_def)

section \<open>Loading and saving settings\<close>

text \<open>
  C8: loading overlays the persisted object on the defaults field by field: a field the
  object has is taken from it, a field it lacks is the default (\<open>codeblock\<close>, no
  preferred languages, \<open>en\<close>), and with nothing persisted all three are the defaults;
  loading what \<open>saveSettings\<close> stored gives the settings that were saved.
\<close>

theorem loadSettings_overlays_defaults:
  "blockType (loadSettings (Some p)) =
     (case p_blockType p of Some v \<Rightarrow> v | None \<Rightarrow> js ''codeblock'') \<and>
   preferredLanguages (loadSettings (Some p)) =
     (case p_preferredLanguages p of Some v \<Rightarrow> v | None \<Rightarrow> []) \<and>
   targetLanguage (loadSettings (Some p)) =
     (case p_targetLanguage p of Some v \<Rightarrow> v | None \<Rightarrow> js ''en'') \<and>
   loadSettings None =
     \<lparr>blockType = js ''codeblock'', preferredLanguages = [], targetLanguage = js ''en''\<rparr> \<and>
   loadSettings (saveSettings this) = this"
  by (simp add: loadSettings_def saveSettings_def object_assign_def DEFAULT_SETTINGS_def
        split: option.splits)

theorem loadSettings_overlays_defaults_witness:
  "loadSettings (Some \<lparr>p_blockType = None, p_preferredLanguages = Some [js ''de''],
                       p_targetLanguage = Some (js ''fr'')\<rparr>) =
     \<lparr>blockType = js ''codeblock'', preferredLanguages = [js ''de''],
      targetLanguage = js ''fr''\<rparr> \<and>
   loadSettings (saveSettings \<lparr>blockType = js ''callout'', preferredLanguages = [js ''de''],
                                targetLanguage = js ''fr''\<rparr>) =
     \<lparr>blockType = js ''callout'', preferredLanguages = [js ''de''], targetLanguage = js ''fr''\<rparr>"
  using
    loadSettings_overlays_defaults
      [of "\<lparr>p_blockType = None, p_preferredLanguages = Some [js ''de''],
            p_targetLanguage = Some (js ''fr'')\<rparr>"
          "\<lparr>blockType = js ''callout'', preferredLanguages = [js ''de''],
            targetLanguage = js ''fr''\<rparr>"]
  by (cases "loadSettings (Some \<lparr>p_blockType = None, p_preferredLanguages = Some [js ''de''],
                       p_targetLanguage = Some (js ''fr'')\<rparr>)") simp

end
